theory Spec2Isabelle
  imports Complex_Main
begin

section \<open>Values, errors and the backing store\<close>

text \<open>
  The development embeds the index and query code of h5features:
  \<^verbatim>\<open>h5features2/index.py\<close>, \<^verbatim>\<open>h5features/index.py\<close> and \<^verbatim>\<open>h5features2/reader.py\<close>.
  Every Python exception is a value of type \<open>error\<close>; a function that may raise returns
  \<open>error + 'a\<close> with \<open>Inl\<close> for the exception.

  Python strings are lists of Unicode code points (\<open>ustring\<close>), because the legacy
  decoder builds names with \<^verbatim>\<open>unichr\<close>. Dictionary and dataset keys are literals of the
  source and stay Isabelle strings. Times and feature values are finite floats that
  the code only compares, slices and transposes; they are modelled as rationals.
  Offsets are 64-bit integers in the store; they are modelled as unbounded integers,
  which agrees with the code as long as the total number of frames stays below \<open>2^63\<close>.
\<close>

type_synonym ustring = "nat list"

definition ustr :: "string \<Rightarrow> ustring" where
  "ustr s = map of_char s"

datatype io_reason =
    ItemOrder
  | NoEntry
  | FromTimeTooLarge
  | SparseNotImplemented

datatype error =
    KeyError string
  | NameError string
  | IndexError
  | ValueError
  | TypeError
  | IOError io_reason
  | PyException

text \<open>
  A two-dimensional array keeps its second dimension beside its rows, so that an
  array with no rows still has a shape. \<open>shape0\<close> is the number of rows.
\<close>

record 'a array2 =
  shape1 :: nat
  data :: "'a list list"

definition shape0 :: "'a array2 \<Rightarrow> nat" where
  "shape0 a = length (data a)"


text \<open>
  What a dataset, an attribute or an entry of the index dictionary can hold.
\<close>

datatype pyval =
    IntArr "int list"
  | StrArr "ustring list"
  | FloatArr "rat list"
  | Arr2 "rat array2"
  | PyStr ustring
  | PyInt int
  | PyBool bool

type_synonym pydict = "string \<rightharpoonup> pyval"

record h5group =
  datasets :: "string \<rightharpoonup> pyval"
  attrs :: "string \<rightharpoonup> pyval"

definition ebind :: "error + 'a \<Rightarrow> ('a \<Rightarrow> error + 'b) \<Rightarrow> error + 'b" where
  "ebind m f = (case m of Inl e \<Rightarrow> Inl e | Inr v \<Rightarrow> f v)"

definition getitem :: "(string \<rightharpoonup> 'v) \<Rightarrow> string \<Rightarrow> error + 'v" where
  "getitem m k = (case m k of None \<Rightarrow> Inl (KeyError k) | Some v \<Rightarrow> Inr v)"


text \<open>
  Python slicing \<^verbatim>\<open>xs[start:stop]\<close>: a negative bound counts from the end, and
  every bound is clipped to the sequence.
\<close>

definition slice_bound :: "nat \<Rightarrow> int \<Rightarrow> nat" where
  "slice_bound n i = (if i < 0 then nat (max 0 (int n + i)) else min n (nat i))"

definition py_slice :: "int \<Rightarrow> int \<Rightarrow> 'a list \<Rightarrow> 'a list" where
  "py_slice start stop xs =
     (let a = slice_bound (length xs) start; b = slice_bound (length xs) stop
      in take (b - a) (drop a xs))"

text \<open>
  Integer indexing \<^verbatim>\<open>xs[i]\<close> with Python's wrap of a negative index; out of range
  raises (IndexError for a list and a numpy array; h5py reports the same condition
  as ValueError in its 2.x releases and IndexError later).
\<close>

definition py_index :: "'a list \<Rightarrow> int \<Rightarrow> error + 'a" where
  "py_index xs i =
     (if 0 \<le> i \<and> i < int (length xs) then Inr (xs ! nat i)
      else if i < 0 \<and> - int (length xs) \<le> i then Inr (xs ! nat (int (length xs) + i))
      else Inl IndexError)"

section \<open>Index.write\<close>

text \<open>
  \<^verbatim>\<open>np.cumsum\<close>: the running sums of a list.
\<close>

fun cumsum_from :: "int \<Rightarrow> int list \<Rightarrow> int list" where
  "cumsum_from acc [] = []"
| "cumsum_from acc (x # xs) = (acc + x) # cumsum_from (acc + x) xs"










section \<open>Reading the index: Index.read and its legacy variants\<close>

text \<open>
  \<^verbatim>\<open>list(dataset[...])\<close>: the elements of an array as a list; a scalar is not iterable.
\<close>

fun py_list :: "pyval \<Rightarrow> error + pyval" where
  "py_list (IntArr xs) = Inr (IntArr xs)"
| "py_list (StrArr xs) = Inr (StrArr xs)"
| "py_list (FloatArr xs) = Inr (FloatArr xs)"
| "py_list (Arr2 a) = Inr (Arr2 a)"
| "py_list _ = Inl TypeError"

text \<open>
  \<^verbatim>\<open>Index.read\<close> of the current layout (both packages have the same text). The
  branch for the sparse format reads \<^verbatim>\<open>g.attrs['dim']\<close>, and no name \<^verbatim>\<open>g\<close> is bound in
  the method or the module: evaluating it raises NameError.
\<close>

definition Index_read :: "h5group \<Rightarrow> error + pydict" where
  "Index_read grp =
     ebind (ebind (getitem (datasets grp) ''items'') py_list) (\<lambda>items.
     ebind (getitem (datasets grp) ''index'') (\<lambda>idx.
     ebind (getitem (datasets grp) ''times'') (\<lambda>times.
     ebind (getitem (attrs grp) ''format'') (\<lambda>fmt.
       (let index = [''items'' \<mapsto> items, ''index'' \<mapsto> idx, ''times'' \<mapsto> times,
                     ''format'' \<mapsto> fmt]
        in if fmt = PyStr (ustr ''sparse'') then Inl (NameError ''g'')
           else Inr index)))))"

text \<open>
  \<^verbatim>\<open>IndexV1_0.read\<close>: the item names are under \<^verbatim>\<open>files\<close>, the offsets under
  \<^verbatim>\<open>file_index\<close>; the sparse branch has the same unbound \<^verbatim>\<open>g\<close>.
\<close>

definition IndexV1_0_read :: "h5group \<Rightarrow> error + pydict" where
  "IndexV1_0_read grp =
     ebind (ebind (getitem (datasets grp) ''files'') py_list) (\<lambda>items.
     ebind (getitem (datasets grp) ''file_index'') (\<lambda>idx.
     ebind (getitem (datasets grp) ''times'') (\<lambda>times.
     ebind (getitem (attrs grp) ''format'') (\<lambda>fmt.
       (let index = [''items'' \<mapsto> items, ''index'' \<mapsto> idx, ''times'' \<mapsto> times,
                     ''format'' \<mapsto> fmt]
        in if fmt = PyStr (ustr ''sparse'') then Inl (NameError ''g'')
           else Inr index)))))"

text \<open>
  The legacy name decoding. \<^verbatim>\<open>unichr(int(c))\<close> accepts the code points \<open>0\<close> to
  \<open>0x10FFFF\<close> and raises ValueError outside (a narrow Python 2 build already above
  \<open>0xFFFF\<close>).
\<close>

definition unichr :: "int \<Rightarrow> error + nat" where
  "unichr c = (if 0 \<le> c \<and> c \<le> 1114111 then Inr (nat c) else Inl ValueError)"

fun unichr_all :: "int list \<Rightarrow> error + ustring" where
  "unichr_all [] = Inr []"
| "unichr_all (c # cs) =
     ebind (unichr c) (\<lambda>u. ebind (unichr_all cs) (\<lambda>us. Inr (u # us)))"

text \<open>
  \<^verbatim>\<open>s.replace(old, new)\<close>: one pass from the left; where \<open>old\<close> starts, \<open>new\<close> is
  written and the scan resumes behind the occurrence, so occurrences never overlap
  and the text written is not scanned again. With an empty \<open>old\<close> Python writes
  \<open>new\<close> before every character and at the end.
\<close>

function replace_scan :: "'a list \<Rightarrow> 'a list \<Rightarrow> 'a list \<Rightarrow> 'a list" where
  "replace_scan old new [] = []"
| "replace_scan old new (c # cs) =
     (if old \<noteq> [] \<and> take (length old) (c # cs) = old
      then new @ replace_scan old new (drop (length old) (c # cs))
      else c # replace_scan old new cs)"
  by pat_completeness auto
termination
  by (relation "measure (\<lambda>(old, new, s). length s)") auto

definition py_replace :: "'a list \<Rightarrow> 'a list \<Rightarrow> 'a list \<Rightarrow> 'a list" where
  "py_replace old new s =
     (if old = [] then new @ concat (map (\<lambda>c. c # new) s) else replace_scan old new s)"

text \<open>
  \<^verbatim>\<open>s.split(sep)\<close>: one pass from the left, cutting at every occurrence of \<open>sep\<close>
  and resuming behind it; \<open>cur\<close> is the piece being read. An empty separator
  raises ValueError.
\<close>

function split_scan :: "'a list \<Rightarrow> 'a list \<Rightarrow> 'a list \<Rightarrow> 'a list list" where
  "split_scan sep cur [] = [cur]"
| "split_scan sep cur (c # cs) =
     (if sep \<noteq> [] \<and> take (length sep) (c # cs) = sep
      then cur # split_scan sep [] (drop (length sep) (c # cs))
      else split_scan sep (cur @ [c]) cs)"
  by pat_completeness auto
termination
  by (relation "measure (\<lambda>(sep, cur, s). length s)") auto

definition py_split :: "'a list \<Rightarrow> 'a list \<Rightarrow> error + 'a list list" where
  "py_split sep s = (if sep = [] then Inl ValueError else Inr (split_scan sep [] s))"

text \<open>
  The expression of \<^verbatim>\<open>LegacyIndex.read\<close> and \<^verbatim>\<open>IndexV0_1.read\<close>:
  \<^verbatim>\<open>''.join([unichr(int(c)) for c in files]).replace('/-', '/').split('/\\')\<close>.
  The code points are \<open>47\<close> for the slash, \<open>45\<close> for the minus sign and \<open>92\<close> for the
  backslash.
\<close>

definition decode_files :: "int list \<Rightarrow> error + ustring list" where
  "decode_files cs =
     ebind (unichr_all cs) (\<lambda>s. py_split [47, 92] (py_replace [47, 45] [47] s))"

text \<open>
  \<^verbatim>\<open>LegacyIndex.read\<close> (and \<^verbatim>\<open>IndexV0_1.read\<close>, the same text). The packed names are
  an integer array and \<^verbatim>\<open>np.int64\<close> of an integer array of offsets returns its
  values; a dataset of another element type is outside the embedding and reported
  as TypeError. The decoded names are stored under the key \<^verbatim>\<open>files\<close>.
\<close>

fun int_elements :: "pyval \<Rightarrow> error + int list" where
  "int_elements (IntArr xs) = Inr xs"
| "int_elements _ = Inl TypeError"

definition LegacyIndex_read :: "h5group \<Rightarrow> error + pydict" where
  "LegacyIndex_read grp =
     ebind (ebind (ebind (getitem (datasets grp) ''files'') int_elements) decode_files)
       (\<lambda>files.
     ebind (ebind (getitem (datasets grp) ''index'') int_elements) (\<lambda>idx.
     ebind (getitem (datasets grp) ''times'') (\<lambda>times.
     ebind (getitem (attrs grp) ''format'') (\<lambda>fmt.
       (let index = [''files'' \<mapsto> StrArr files, ''index'' \<mapsto> IntArr idx,
                     ''times'' \<mapsto> times, ''format'' \<mapsto> fmt]
        in if fmt = PyStr (ustr ''sparse'')
           then ebind (getitem (attrs grp) ''dim'') (\<lambda>dim.
                ebind (getitem (datasets grp) ''lines'') (\<lambda>lines.
                  Inr (index(''dim'' \<mapsto> dim, ''frames'' \<mapsto> lines))))
           else Inr index)))))"

section \<open>Reader\<close>

text \<open>
  A reader holds the flag \<^verbatim>\<open>self.legacy\<close>, the index dictionary \<^verbatim>\<open>self.index\<close> and
  the open group \<^verbatim>\<open>self.group\<close>. The flag is kept as the value it was given, since
  the constructor copies \<^verbatim>\<open>index['legacy']\<close> unchecked, and is read for its truth
  value at the one place that branches on it.
\<close>

record reader =
  r_legacy :: pyval
  r_index :: pydict
  r_group :: h5group

text \<open>
  \<^verbatim>\<open>Reader.__init__\<close> from the point where the group has been opened: without an
  index the version attribute selects the codec and the index is read from the
  group; a given index is taken as it is.
\<close>

definition Reader_init :: "h5group \<Rightarrow> pydict option \<Rightarrow> error + reader" where
  "Reader_init grp index =
     (case index of
        None \<Rightarrow>
          (let legacy = (attrs grp ''version'' = None)
           in ebind (if legacy then LegacyIndex_read grp else Index_read grp) (\<lambda>i.
                Inr \<lparr>r_legacy = PyBool legacy, r_index = i, r_group = grp\<rparr>))
      | Some i \<Rightarrow>
          ebind (getitem i ''legacy'') (\<lambda>l.
            Inr \<lparr>r_legacy = l, r_index = i, r_group = grp\<rparr>))"

text \<open>
  The truth value of \<^verbatim>\<open>if self.legacy\<close>: a scalar by Python's rule; an array has none
  that the embedding fixes (numpy refuses arrays of several elements).
\<close>

fun truthy :: "pyval \<Rightarrow> error + bool" where
  "truthy (PyBool b) = Inr b"
| "truthy (PyInt n) = Inr (n \<noteq> 0)"
| "truthy (PyStr s) = Inr (s \<noteq> [])"
| "truthy _ = Inl ValueError"

text \<open>
  \<^verbatim>\<open>Reader._get_item\<close>: \<^verbatim>\<open>list.index\<close> returns the first position that holds
  the element, and its ValueError is turned into an IOError.
\<close>

primrec list_index :: "'a list \<Rightarrow> 'a \<Rightarrow> nat option" where
  "list_index [] x = None"
| "list_index (y # ys) x = (if y = x then Some 0 else map_option Suc (list_index ys x))"

definition get_item :: "'a list \<Rightarrow> 'a \<Rightarrow> error + nat" where
  "get_item grp element =
     (case list_index grp element of None \<Rightarrow> Inl (IOError NoEntry) | Some i \<Rightarrow> Inr i)"

text \<open>
  Lines 90 to 100 of \<^verbatim>\<open>Reader.read\<close>: the defaults of the two item names, taken in
  the order of the source (\<^verbatim>\<open>to_item\<close> first, from the \<^verbatim>\<open>from_item\<close> as passed), their
  positions, and the test of the order.
\<close>

definition resolve_items ::
  "ustring list \<Rightarrow> ustring option \<Rightarrow> ustring option \<Rightarrow> error + nat \<times> nat" where
  "resolve_items items_group from_item to_item =
     ebind (case to_item of
              None \<Rightarrow> (case from_item of
                          None \<Rightarrow> py_index items_group (-1)
                        | Some f \<Rightarrow> Inr f)
            | Some t \<Rightarrow> Inr t) (\<lambda>to_item'.
     ebind (case from_item of None \<Rightarrow> py_index items_group 0 | Some f \<Rightarrow> Inr f)
       (\<lambda>from_item'.
     ebind (get_item items_group from_item') (\<lambda>item1.
     ebind (get_item items_group to_item') (\<lambda>item2.
       if \<not> item2 \<ge> item1 then Inl (IOError ItemOrder) else Inr (item1, item2)))))"

text \<open>
  Lines 103 to 107: the first and last frame of the two items,
  \<open>(item1_start, item2_start, item1_end, item2_end)\<close>.
\<close>

definition item_bounds :: "int list \<Rightarrow> nat \<Rightarrow> nat \<Rightarrow> error + int \<times> int \<times> int \<times> int" where
  "item_bounds index_group item1 item2 =
     ebind (if item1 = 0 then Inr 0
            else ebind (py_index index_group (int item1 - 1)) (\<lambda>v. Inr (v + 1)))
       (\<lambda>item1_start.
     ebind (if item2 = 0 then Inr 0
            else ebind (py_index index_group (int item2 - 1)) (\<lambda>v. Inr (v + 1)))
       (\<lambda>item2_start.
     ebind (py_index index_group (int item1)) (\<lambda>item1_end.
     ebind (py_index index_group (int item2)) (\<lambda>item2_end.
       Inr (item1_start, item2_start, item1_end, item2_end)))))"

text \<open>
  \<^verbatim>\<open>index_group['times']\<close>: \<^verbatim>\<open>index_group\<close> is \<^verbatim>\<open>self.index['index']\<close>, the array of
  offsets, and a string is not an index of a plain numpy array: the expression
  raises (IndexError; the oldest numpy releases report the missing field as
  ValueError). The statement stands before the \<^verbatim>\<open>try\<close>, so nothing catches it.
\<close>

definition ndarray_field :: "int list \<Rightarrow> string \<Rightarrow> error + rat list" where
  "ndarray_field a key = Inl IndexError"

text \<open>
  \<^verbatim>\<open>np.where(cond)[0][0]\<close> and \<^verbatim>\<open>np.where(cond)[0][-1]\<close>: the first and the last
  position that satisfies the condition, if any.
\<close>

definition where_true :: "('a \<Rightarrow> bool) \<Rightarrow> 'a list \<Rightarrow> int list" where
  "where_true P xs = map int (filter (\<lambda>i. P (xs ! i)) [0..<length xs])"

text \<open>
  Lines 109 to 131: the two time bounds. The IndexError of an empty
  \<^verbatim>\<open>np.where\<close> is caught and raised again as IOError for \<^verbatim>\<open>from_time\<close> and as a
  plain Exception for \<^verbatim>\<open>to_time\<close>.
\<close>

definition lower_bound :: "int list \<Rightarrow> int \<Rightarrow> int \<Rightarrow> rat option \<Rightarrow> error + int" where
  "lower_bound index_group item1_start item1_end from_time =
     (case from_time of
        None \<Rightarrow> Inr item1_start
      | Some ft \<Rightarrow>
          ebind (ndarray_field index_group ''times'') (\<lambda>all_times.
            (let times = py_slice item1_start (item1_end + 1) all_times
             in case py_index (where_true (\<lambda>t. t \<ge> ft) times) 0 of
                  Inl e \<Rightarrow> Inl (IOError FromTimeTooLarge)
                | Inr k \<Rightarrow> Inr (item1_start + k))))"

definition upper_bound :: "int list \<Rightarrow> int \<Rightarrow> int \<Rightarrow> rat option \<Rightarrow> error + int" where
  "upper_bound index_group item2_start item2_end to_time =
     (case to_time of
        None \<Rightarrow> Inr item2_end
      | Some tt \<Rightarrow>
          ebind (ndarray_field index_group ''times'') (\<lambda>all_times.
            (let times = py_slice item2_start (item2_end + 1) all_times
             in case py_index (where_true (\<lambda>t. t \<le> tt) times) (-1) of
                  Inl e \<Rightarrow> Inl PyException
                | Inr k \<Rightarrow> Inr (item2_start + k))))"

text \<open>
  Slicing a dataset of the store, \<^verbatim>\<open>dataset[start:stop]\<close>: h5py normalises the
  bounds as Python does and, in the releases of the source's time, refuses a
  selection whose end lies before its start. The result is the first position and
  the number of positions selected.
\<close>

definition h5_range :: "nat \<Rightarrow> int \<Rightarrow> int \<Rightarrow> error + nat \<times> nat" where
  "h5_range n start stop =
     (let a = slice_bound n start; b = slice_bound n stop
      in if b < a then Inl ValueError else Inr (a, b - a))"

definition h5_slice :: "int \<Rightarrow> int \<Rightarrow> 'a list \<Rightarrow> error + 'a list" where
  "h5_slice start stop xs =
     ebind (h5_range (length xs) start stop) (\<lambda>(a, count). Inr (take count (drop a xs)))"

definition h5_rows :: "int \<Rightarrow> int \<Rightarrow> 'a array2 \<Rightarrow> error + 'a array2" where
  "h5_rows start stop a =
     ebind (h5_slice start stop (data a)) (\<lambda>rs. Inr \<lparr>shape1 = shape1 a, data = rs\<rparr>)"

definition h5_cols :: "int \<Rightarrow> int \<Rightarrow> 'a array2 \<Rightarrow> error + 'a array2" where
  "h5_cols start stop a =
     ebind (h5_range (shape1 a) start stop) (\<lambda>(c, count).
       Inr \<lparr>shape1 = count, data = map (\<lambda>r. take count (drop c r)) (data a)\<rparr>)"

text \<open>
  \<^verbatim>\<open>ndarray.T\<close> of a two-dimensional array.
\<close>

definition transpose2 :: "'a array2 \<Rightarrow> 'a array2" where
  "transpose2 a =
     \<lparr>shape1 = shape0 a, data = map (\<lambda>j. map (\<lambda>r. r ! j) (data a)) [0..<shape1 a]\<rparr>"

text \<open>
  Lines 134 to 143: the frames and the times of the range \<open>[i1, i2]\<close>. A legacy
  store is sliced along its second axis and the block transposed; the other stores
  are sliced along the first axis.
\<close>

fun as_array2 :: "pyval \<Rightarrow> error + rat array2" where
  "as_array2 (Arr2 a) = Inr a"
| "as_array2 _ = Inl TypeError"

fun as_floats :: "pyval \<Rightarrow> error + rat list" where
  "as_floats (FloatArr xs) = Inr xs"
| "as_floats _ = Inl TypeError"

definition access_features :: "bool \<Rightarrow> 'a array2 \<Rightarrow> int \<Rightarrow> int \<Rightarrow> error + 'a array2" where
  "access_features legacy features_group i1 i2 =
     (if legacy then ebind (h5_cols i1 (i2 + 1) features_group) (\<lambda>b. Inr (transpose2 b))
      else h5_rows i1 (i2 + 1) features_group)"

definition access_data ::
  "reader \<Rightarrow> int \<Rightarrow> int \<Rightarrow> error + rat array2 \<times> rat list" where
  "access_data self i1 i2 =
     ebind (getitem (datasets (r_group self)) ''features'') (\<lambda>features_group.
     ebind (getitem (r_index self) ''format'') (\<lambda>fmt.
       if fmt = PyStr (ustr ''dense'') then
         ebind (truthy (r_legacy self)) (\<lambda>legacy.
         ebind (as_array2 features_group) (\<lambda>fg.
         ebind (access_features legacy fg i1 i2) (\<lambda>features.
         ebind (ebind (getitem (datasets (r_group self)) ''times'') as_floats) (\<lambda>ts.
         ebind (h5_slice i1 (i2 + 1) ts) (\<lambda>times.
           Inr (features, times))))))
       else Inl (IOError SparseNotImplemented)))"

text \<open>
  \<^verbatim>\<open>np.split(ary, indices)\<close> along the first axis: the pieces
  \<^verbatim>\<open>ary[d[i]:d[i+1]]\<close> for \<^verbatim>\<open>d = [0] + indices + [len(ary)]\<close>, each a numpy slice.
\<close>

definition np_split :: "'a list \<Rightarrow> int list \<Rightarrow> 'a list list" where
  "np_split ary indices =
     (let div_points = [0] @ indices @ [int (length ary)]
      in map (\<lambda>(st, en). py_slice st en ary) (zip div_points (tl div_points)))"

definition np_split2 :: "'a array2 \<Rightarrow> int list \<Rightarrow> 'a array2 list" where
  "np_split2 a indices = map (\<lambda>rs. \<lparr>shape1 = shape1 a, data = rs\<rparr>) (np_split (data a) indices)"

text \<open>
  Line 146: \<^verbatim>\<open>file_ends = index_group[item1:item2] - item1_start\<close>.
\<close>

definition file_ends :: "int list \<Rightarrow> nat \<Rightarrow> nat \<Rightarrow> int \<Rightarrow> int list" where
  "file_ends index_group item1 item2 item1_start =
     map (\<lambda>v. v - item1_start) (py_slice (int item1) (int item2) index_group)"

text \<open>
  Lines 145 to 153: one piece per item when the range covers several items.
\<close>

definition split_items ::
  "int list \<Rightarrow> nat \<Rightarrow> nat \<Rightarrow> int \<Rightarrow> 'a array2 \<Rightarrow> 'b list \<Rightarrow> 'a array2 list \<times> 'b list list" where
  "split_items index_group item1 item2 item1_start features tms =
     (if item2 > item1 then
        (let ends = file_ends index_group item1 item2 item1_start
         in (np_split2 features (map (\<lambda>v. v + 1) ends), np_split tms (map (\<lambda>v. v + 1) ends)))
      else ([features], [tms]))"

fun as_names :: "pyval \<Rightarrow> error + ustring list" where
  "as_names (StrArr xs) = Inr xs"
| "as_names _ = Inl TypeError"

text \<open>
  \<^verbatim>\<open>Reader.read(from_item, to_item, from_time, to_time)\<close>; the result is
  \<open>(items, times, features)\<close>. The entry \<^verbatim>\<open>items\<close> of the index is a list of names and
  the entry \<^verbatim>\<open>index\<close> an integer array; entries of another type are outside the
  embedding and reported as TypeError.
\<close>

definition Reader_read ::
  "reader \<Rightarrow> ustring option \<Rightarrow> ustring option \<Rightarrow> rat option \<Rightarrow> rat option
     \<Rightarrow> error + ustring list \<times> rat list list \<times> rat array2 list" where
  "Reader_read self from_item to_item from_time to_time =
     ebind (ebind (getitem (r_index self) ''items'') as_names) (\<lambda>items_group.
     ebind (resolve_items items_group from_item to_item) (\<lambda>(item1, item2).
     ebind (ebind (getitem (r_index self) ''index'') int_elements) (\<lambda>index_group.
     ebind (item_bounds index_group item1 item2)
       (\<lambda>(item1_start, item2_start, item1_end, item2_end).
     ebind (lower_bound index_group item1_start item1_end from_time) (\<lambda>i1.
     ebind (upper_bound index_group item2_start item2_end to_time) (\<lambda>i2.
     ebind (access_data self i1 i2) (\<lambda>(features, times).
       (let (fs, ts) = split_items index_group item1 item2 item1_start features times;
            items = py_slice (int item1) (int item2 + 1) items_group
        in Inr (items, ts, fs)))))))))"

section \<open>Definitions used in the statements\<close>



text \<open>
  An array of \<open>n\<close> frames of dimension \<open>d\<close>, and the stores of the examples.
\<close>

definition zeros :: "nat \<Rightarrow> nat \<Rightarrow> rat array2" where
  "zeros n d = \<lparr>shape1 = d, data = replicate n (replicate d 0)\<rparr>"




definition set_format :: "h5group \<Rightarrow> string \<Rightarrow> h5group" where
  "set_format grp f = grp\<lparr>attrs := (attrs grp)(''format'' \<mapsto> PyStr (ustr f))\<rparr>"

definition one_item_store :: h5group where
  "one_item_store =
     \<lparr>datasets = [''items'' \<mapsto> StrArr [ustr ''a''], ''index'' \<mapsto> IntArr [3],
                  ''times'' \<mapsto> FloatArr [1, 2, 3, 4],
                  ''features'' \<mapsto> Arr2 \<lparr>shape1 = 1, data = [[10], [20], [30], [40]]\<rparr>],
      attrs = [''format'' \<mapsto> PyStr (ustr ''dense''), ''version'' \<mapsto> PyStr (ustr ''1.1'')]\<rparr>"

definition two_item_store :: h5group where
  "two_item_store =
     \<lparr>datasets = [''items'' \<mapsto> StrArr [ustr ''a'', ustr ''b''], ''index'' \<mapsto> IntArr [1, 2],
                  ''times'' \<mapsto> FloatArr [1, 2, 1],
                  ''features'' \<mapsto> Arr2 \<lparr>shape1 = 2, data = [[10, 11], [20, 21], [30, 31]]\<rparr>],
      attrs = [''format'' \<mapsto> PyStr (ustr ''dense''), ''version'' \<mapsto> PyStr (ustr ''1.1'')]\<rparr>"

definition two_item_legacy_store :: h5group where
  "two_item_legacy_store =
     \<lparr>datasets = [''files'' \<mapsto> IntArr [97, 47, 92, 98], ''index'' \<mapsto> IntArr [1, 2],
                  ''times'' \<mapsto> FloatArr [1, 2, 1],
                  ''features'' \<mapsto> Arr2 \<lparr>shape1 = 3, data = [[10, 20, 30], [11, 21, 31]]\<rparr>],
      attrs = [''format'' \<mapsto> PyStr (ustr ''dense'')]\<rparr>"

definition sparse_store :: h5group where
  "sparse_store =
     \<lparr>datasets = [''items'' \<mapsto> StrArr [ustr ''a''], ''files'' \<mapsto> StrArr [ustr ''a''],
                  ''index'' \<mapsto> IntArr [1], ''file_index'' \<mapsto> IntArr [1],
                  ''times'' \<mapsto> FloatArr [1, 2], ''frames'' \<mapsto> IntArr [2, 1]],
      attrs = [''format'' \<mapsto> PyStr (ustr ''sparse''), ''dim'' \<mapsto> PyInt 5,
               ''version'' \<mapsto> PyStr (ustr ''1.1'')]\<rparr>"

definition sparse_legacy_store :: h5group where
  "sparse_legacy_store =
     \<lparr>datasets = [''files'' \<mapsto> IntArr [97], ''index'' \<mapsto> IntArr [1],
                  ''times'' \<mapsto> FloatArr [1, 2], ''lines'' \<mapsto> IntArr [2, 1]],
      attrs = [''format'' \<mapsto> PyStr (ustr ''sparse''), ''dim'' \<mapsto> PyInt 5]\<rparr>"


text \<open>
  The first frame of item \<open>i\<close>, as lines 104 and 105 of \<^verbatim>\<open>Reader.read\<close> compute it
  (\<^verbatim>\<open>0 if item == 0 else index_group[item - 1] + 1\<close>).
\<close>

definition item_start :: "int list \<Rightarrow> nat \<Rightarrow> int" where
  "item_start idx i = (if i = 0 then 0 else idx ! (i - 1) + 1)"

text \<open>
  A well-formed cumulative index: non-decreasing, and no offset below \<open>-1\<close> (the end
  offset of an item without frames at the start of the store).
\<close>

definition wf_index :: "int list \<Rightarrow> bool" where
  "wf_index idx = (sorted idx \<and> list_all (\<lambda>v. -1 \<le> v) idx)"

text \<open>
  The positions just behind the last frame of the items \<open>p1\<close> to \<open>p2\<close>.
\<close>

definition ends_of :: "int list \<Rightarrow> nat \<Rightarrow> nat \<Rightarrow> nat list" where
  "ends_of idx p1 p2 = map (\<lambda>i. nat (idx ! i + 1)) [p1..<Suc p2]"

text \<open>
  The split offsets as the words of claim C3 select them: the offsets at the positions
  strictly between \<open>p1\<close> and \<open>p2\<close>, each re-based by \<open>s1\<close>. The code's selection is
  \<open>file_ends\<close>.
\<close>

definition strictly_between :: "int list \<Rightarrow> nat \<Rightarrow> nat \<Rightarrow> int \<Rightarrow> int list" where
  "strictly_between idx p1 p2 s1 = map (\<lambda>i. idx ! i - s1) [Suc p1..<p2]"

text \<open>
  A reader on three items of 4, 3 and 2 frames.
\<close>

definition three_item_reader :: reader where
  "three_item_reader =
     \<lparr>r_legacy = PyBool False,
      r_index = [''items'' \<mapsto> StrArr [ustr ''a'', ustr ''b'', ustr ''c''],
                 ''index'' \<mapsto> IntArr [3, 6, 8],
                 ''format'' \<mapsto> PyStr (ustr ''dense'')],
      r_group = \<lparr>datasets = [''features'' \<mapsto> Arr2 \<lparr>shape1 = 1,
                      data = [[10], [11], [12], [13], [20], [21], [22], [30], [31]]\<rparr>,
                    ''times'' \<mapsto> FloatArr [1, 2, 3, 4, 1, 2, 3, 1, 2]],
                 attrs = Map.empty\<rparr>\<rparr>"

text \<open>
  \<^verbatim>\<open>sep.join(pieces)\<close>, and the test whether a string occurs inside another one; the
  integers that \<^verbatim>\<open>unichr\<close> accepts.
\<close>

fun py_join :: "'a list \<Rightarrow> 'a list list \<Rightarrow> 'a list" where
  "py_join sep [] = []"
| "py_join sep [x] = x"
| "py_join sep (x # y # ys) = x @ sep @ py_join sep (y # ys)"

fun contains :: "'a list \<Rightarrow> 'a list \<Rightarrow> bool" where
  "contains sub [] = (sub = [])"
| "contains sub (x # xs) = (take (length sub) (x # xs) = sub \<or> contains sub xs)"

definition code_point :: "int \<Rightarrow> bool" where
  "code_point c = (0 \<le> c \<and> c \<le> 1114111)"

section \<open>Auxiliary facts\<close>

lemma ebind_simps [simp]: "ebind (Inl e) f = Inl e" "ebind (Inr v) f = f v"
  by (simp_all add: ebind_def)

lemma isl_ebind: "isl (ebind m f) = (case m of Inl e \<Rightarrow> True | Inr v \<Rightarrow> isl (f v))"
  by (cases m) simp_all

lemma shape0_zeros [simp]: "shape0 (zeros n d) = n"
  by (simp add: shape0_def zeros_def)

lemma length_cumsum_from [simp]: "length (cumsum_from a xs) = length xs"
  by (induction xs arbitrary: a) simp_all



lemma cumsum_from_Nil_iff [simp]: "cumsum_from a xs = [] \<longleftrightarrow> xs = []"
  by (cases xs) simp_all







lemma py_index_last: "xs \<noteq> [] \<Longrightarrow> py_index xs (-1) = Inr (last xs)"
  by (cases xs rule: rev_cases) (simp_all add: py_index_def)

lemma py_index_first: "xs \<noteq> [] \<Longrightarrow> py_index xs 0 = Inr (hd xs)"
  by (cases xs) (simp_all add: py_index_def)






text \<open>
  \<^verbatim>\<open>list.index\<close> finds the first position of an element.
\<close>

lemma list_index_None: "list_index xs x = None \<longleftrightarrow> x \<notin> set xs"
  by (induction xs) auto

lemma list_index_Some:
  "list_index xs x = Some i \<longleftrightarrow> i < length xs \<and> xs ! i = x \<and> (\<forall>j<i. xs ! j \<noteq> x)"
proof (induction xs arbitrary: i)
  case Nil
  then show ?case by simp
next
  case (Cons y ys)
  show ?case
  proof (cases "y = x")
    case True
    then show ?thesis by (cases i) auto
  next
    case False
    show ?thesis
    proof (cases i)
      case 0
      with False show ?thesis by simp
    next
      case (Suc k)
      have "(\<forall>j<Suc k. (y # ys) ! j \<noteq> x) \<longleftrightarrow> (\<forall>j<k. ys ! j \<noteq> x)"
        using False by (auto simp: less_Suc_eq_0_disj)
      with Suc False Cons.IH [of k] show ?thesis by auto
    qed
  qed
qed

text \<open>
  The dictionary of the legacy reader has no entry \<^verbatim>\<open>items\<close>, and
  \<^verbatim>\<open>Reader.read\<close> starts by reading that entry.
\<close>

lemma legacy_no_items: "LegacyIndex_read grp = Inr d \<Longrightarrow> d ''items'' = None"
  by (auto simp: LegacyIndex_read_def ebind_def Let_def split: sum.splits if_splits)

lemma read_without_items: "r_index self ''items'' = None \<Longrightarrow>
  Reader_read self from_item to_item from_time to_time = Inl (KeyError ''items'')"
  by (simp add: Reader_read_def getitem_def)







text \<open>
  The steps of \<^verbatim>\<open>Reader.read\<close> on the store of two items, evaluated one by one.
\<close>

lemma two_item_init: "Reader_init two_item_store None =
   Inr \<lparr>r_legacy = PyBool False,
        r_index = [''items'' \<mapsto> StrArr [ustr ''a'', ustr ''b''], ''index'' \<mapsto> IntArr [1, 2],
                   ''times'' \<mapsto> FloatArr [1, 2, 1], ''format'' \<mapsto> PyStr (ustr ''dense'')],
        r_group = two_item_store\<rparr>"
  by (simp add: Reader_init_def two_item_store_def Index_read_def getitem_def ustr_def)

lemma two_item_resolve: "resolve_items [ustr ''a'', ustr ''b''] None None = Inr (0, Suc 0)"
  by (simp add: resolve_items_def py_index_def get_item_def ustr_def)

lemma two_item_bounds: "item_bounds [1, 2] 0 (Suc 0) = Inr (0, 2, 1, 2)"
  by (simp add: item_bounds_def py_index_def)

lemma two_item_data: "access_data \<lparr>r_legacy = PyBool False,
        r_index = [''items'' \<mapsto> StrArr [ustr ''a'', ustr ''b''], ''index'' \<mapsto> IntArr [1, 2],
                   ''times'' \<mapsto> FloatArr [1, 2, 1], ''format'' \<mapsto> PyStr (ustr ''dense'')],
        r_group = two_item_store\<rparr> 0 2 =
    Inr (\<lparr>shape1 = 2, data = [[10, 11], [20, 21], [30, 31]]\<rparr>, [1, 2, 1])"
  by (simp add: access_data_def getitem_def two_item_store_def access_features_def h5_rows_def
      h5_slice_def h5_range_def slice_bound_def)

lemma two_item_split: "split_items [1, 2] 0 (Suc 0) 0 \<lparr>shape1 = 2, data = [[10, 11], [20, 21], [30, 31 :: rat]]\<rparr>
     [1, 2, 1 :: rat] =
   ([\<lparr>shape1 = 2, data = [[10, 11], [20, 21]]\<rparr>, \<lparr>shape1 = 2, data = [[30, 31]]\<rparr>], [[1, 2], [1]])"
  by (simp add: split_items_def file_ends_def np_split_def np_split2_def py_slice_def slice_bound_def)

text \<open>
  Slices of a window of a list are slices of the list; \<^verbatim>\<open>np.split\<close> of the window
  of several items at the re-based ends of the items yields the items.
\<close>

lemma py_slice_nat:
  "b \<le> c \<Longrightarrow> c \<le> length xs \<Longrightarrow> py_slice (int b) (int c) xs = take (c - b) (drop b xs)"
  by (simp add: py_slice_def slice_bound_def)

lemma py_slice_of_window:
  assumes "a \<le> b" "b \<le> c" "c \<le> d" "d \<le> length xs"
  shows "py_slice (int b - int a) (int c - int a) (take (d - a) (drop a xs))
           = py_slice (int b) (int c) xs"
proof -
  have l: "length (take (d - a) (drop a xs)) = d - a" using assms by simp
  have "py_slice (int (b - a)) (int (c - a)) (take (d - a) (drop a xs))
          = take (c - a - (b - a)) (drop (b - a) (take (d - a) (drop a xs)))"
    using assms l by (intro py_slice_nat) simp_all
  also have "\<dots> = take (c - b) (drop b xs)"
    using assms by (simp add: drop_take take_take min_def)
  also have "\<dots> = py_slice (int b) (int c) xs"
    using assms by (simp add: py_slice_nat)
  finally show ?thesis using assms by (simp add: of_nat_diff)
qed

lemma nat_int_pred: "nat (int p - 1) = p - Suc 0"
  by arith

lemma item_bounds_ok:
  assumes "p1 \<le> p2" "p2 < length idx"
  shows "item_bounds idx p1 p2 = Inr (item_start idx p1, item_start idx p2, idx ! p1, idx ! p2)"
  using assms by (simp add: item_bounds_def item_start_def py_index_def nat_int_pred)

lemma file_ends_nth:
  assumes "p1 \<le> p2" "p2 \<le> length idx"
  shows "file_ends idx p1 p2 s = map (\<lambda>i. idx ! i - s) [p1..<p2]"
proof -
  have "take (p2 - p1) (drop p1 idx) = map (\<lambda>i. idx ! i) [p1..<p2]"
    using assms by (auto simp: list_eq_iff_nth_eq)
  with assms show ?thesis
    by (simp add: file_ends_def py_slice_nat o_def)
qed

lemma zip_chain_bounds:
  "sorted (b0 # E) \<Longrightarrow> (b, c) \<in> set (zip (b0 # E) E) \<Longrightarrow> b0 \<le> b \<and> b \<le> c \<and> c \<le> last E"
proof (induction E arbitrary: b0)
  case Nil
  then show ?case by simp
next
  case (Cons e E)
  from Cons.prems(2) have "(b, c) = (b0, e) \<or> (b, c) \<in> set (zip (e # E) E)" by simp
  then show ?case
  proof
    assume "(b, c) = (b0, e)"
    with Cons.prems(1) show ?thesis by auto
  next
    assume in_rest: "(b, c) \<in> set (zip (e # E) E)"
    then have "E \<noteq> []" by auto
    from Cons.prems(1) have "sorted (e # E)" "b0 \<le> e" by simp_all
    from Cons.IH [OF this(1) in_rest] this(2) \<open>E \<noteq> []\<close> show ?thesis by auto
  qed
qed

lemma np_split_windows:
  assumes "sorted (b0 # E)" "E \<noteq> []" "last E \<le> length xs"
  shows "np_split (take (last E - b0) (drop b0 xs)) (map (\<lambda>b. int b - int b0) (butlast E))
           = map (\<lambda>(b, c). py_slice (int b) (int c) xs) (zip (b0 # E) E)"
proof -
  let ?f = "\<lambda>b. int b - int b0"
  let ?T = "take (last E - b0) (drop b0 xs)"
  from assms(1,2) have b0: "b0 \<le> last E" by auto
  with assms(3) have len: "int (length ?T) = ?f (last E)" by simp
  have E: "butlast E @ [last E] = E" using assms(2) by simp
  have "[0] @ map ?f (butlast E) @ [int (length ?T)] = map ?f (b0 # butlast E @ [last E])"
    unfolding len by simp
  then have dp: "[0] @ map ?f (butlast E) @ [int (length ?T)] = map ?f (b0 # E)"
    unfolding E .
  have "np_split ?T (map ?f (butlast E))
          = map (\<lambda>(st, en). py_slice st en ?T) (zip (map ?f (b0 # E)) (map ?f E))"
    unfolding np_split_def Let_def dp by simp
  also have "\<dots> = map (\<lambda>(b, c). py_slice (?f b) (?f c) ?T) (zip (b0 # E) E)"
    by (subst zip_map_map) (simp add: split_def o_def)
  also have "\<dots> = map (\<lambda>(b, c). py_slice (int b) (int c) xs) (zip (b0 # E) E)"
  proof (rule map_cong [OF refl])
    fix p
    assume p: "p \<in> set (zip (b0 # E) E)"
    obtain b c where bc: "p = (b, c)" by (cases p)
    from zip_chain_bounds [OF assms(1)] p bc
    have "b0 \<le> b" "b \<le> c" "c \<le> last E" by auto
    from py_slice_of_window [OF this assms(3)] bc
    show "(case p of (b, c) \<Rightarrow> py_slice (?f b) (?f c) ?T)
            = (case p of (b, c) \<Rightarrow> py_slice (int b) (int c) xs)"
      by simp
  qed
  finally show ?thesis .
qed

lemma wf_index_mono: "wf_index idx \<Longrightarrow> i \<le> j \<Longrightarrow> j < length idx \<Longrightarrow> idx ! i \<le> idx ! j"
  by (simp add: wf_index_def sorted_iff_nth_mono)

lemma wf_index_ge: "wf_index idx \<Longrightarrow> i < length idx \<Longrightarrow> -1 \<le> idx ! i"
  by (simp add: wf_index_def list_all_length)

lemma item_start_nonneg:
  assumes "wf_index idx" "i \<le> length idx"
  shows "0 \<le> item_start idx i"
proof (cases i)
  case 0
  then show ?thesis by (simp add: item_start_def)
next
  case (Suc k)
  with assms(2) have "k < length idx" by simp
  from wf_index_ge [OF assms(1) this] Suc show ?thesis by (simp add: item_start_def)
qed

lemma item_start_le_end:
  assumes "wf_index idx" "i < length idx"
  shows "item_start idx i \<le> idx ! i + 1"
proof (cases i)
  case 0
  with wf_index_ge [OF assms] show ?thesis by (simp add: item_start_def)
next
  case (Suc k)
  with wf_index_mono [OF assms(1), of k i] assms(2) show ?thesis by (simp add: item_start_def)
qed

lemma item_start_Suc: "item_start idx (Suc i) = idx ! i + 1"
  by (simp add: item_start_def)

lemma ends_of_sorted:
  assumes "wf_index idx" "p1 \<le> p2" "p2 < length idx"
  shows "sorted (nat (item_start idx p1) # ends_of idx p1 p2)"
proof -
  have "sorted (ends_of idx p1 p2)"
    unfolding ends_of_def sorted_iff_nth_mono
  proof (intro allI impI)
    fix i j
    assume ij: "i \<le> j" and j: "j < length (map (\<lambda>i. nat (idx ! i + 1)) [p1..<Suc p2])"
    then have "p1 + j < length idx" "p1 + i \<le> p1 + j" using assms by simp_all
    from wf_index_mono [OF assms(1) this(2,1)] ij j
    show "map (\<lambda>i. nat (idx ! i + 1)) [p1..<Suc p2] ! i \<le> map (\<lambda>i. nat (idx ! i + 1)) [p1..<Suc p2] ! j"
      by (simp del: upt_Suc)
  qed
  moreover have "nat (item_start idx p1) \<le> e" if "e \<in> set (ends_of idx p1 p2)" for e
  proof -
    from that obtain i where i: "p1 \<le> i" "i \<le> p2" "e = nat (idx ! i + 1)"
      by (auto simp: ends_of_def)
    with assms have "p1 < length idx" "i < length idx" by simp_all
    from item_start_le_end [OF assms(1) this(1)] wf_index_mono [OF assms(1) i(1) this(2)] i(3)
    show ?thesis by simp
  qed
  ultimately show ?thesis by simp
qed

lemma ends_of_last: "p1 \<le> p2 \<Longrightarrow> last (ends_of idx p1 p2) = nat (idx ! p2 + 1)"
  by (simp add: ends_of_def)

lemma ends_of_butlast: "p1 \<le> p2 \<Longrightarrow> butlast (ends_of idx p1 p2) = map (\<lambda>i. nat (idx ! i + 1)) [p1..<p2]"
  by (simp add: ends_of_def)

lemma ends_of_ne: "p1 \<le> p2 \<Longrightarrow> ends_of idx p1 p2 \<noteq> []"
  by (simp add: ends_of_def)

lemma split_points:
  assumes "wf_index idx" "p1 \<le> p2" "p2 < length idx"
  shows "map (\<lambda>v. v + 1) (file_ends idx p1 p2 (item_start idx p1))
           = map (\<lambda>b. int b - int (nat (item_start idx p1))) (butlast (ends_of idx p1 p2))"
proof -
  have "p1 \<le> length idx" using assms by simp
  from item_start_nonneg [OF assms(1) this]
  have s: "int (nat (item_start idx p1)) = item_start idx p1" by simp
  have lhs: "map (\<lambda>v. v + 1) (file_ends idx p1 p2 (item_start idx p1))
      = map (\<lambda>i. idx ! i - item_start idx p1 + 1) [p1..<p2]"
    using assms by (simp add: file_ends_nth o_def)
  have rhs: "map (\<lambda>b. int b - int (nat (item_start idx p1))) (butlast (ends_of idx p1 p2))
      = map (\<lambda>i. int (nat (idx ! i + 1)) - item_start idx p1) [p1..<p2]"
    unfolding s using assms(2) by (simp add: ends_of_butlast o_def)
  have "map (\<lambda>i. idx ! i - item_start idx p1 + 1) [p1..<p2]
      = map (\<lambda>i. int (nat (idx ! i + 1)) - item_start idx p1) [p1..<p2]"
  proof (rule map_cong [OF refl])
    fix i
    assume "i \<in> set [p1..<p2]"
    with assms have "i < length idx" by simp
    from wf_index_ge [OF assms(1) this]
    show "idx ! i - item_start idx p1 + 1 = int (nat (idx ! i + 1)) - item_start idx p1"
      by simp
  qed
  with lhs rhs show ?thesis by simp
qed

lemma pieces_per_item:
  assumes "wf_index idx" "p1 \<le> p2" "p2 < length idx"
  shows "map (\<lambda>(b, c). py_slice (int b) (int c) xs)
           (zip (nat (item_start idx p1) # ends_of idx p1 p2) (ends_of idx p1 p2))
         = map (\<lambda>i. py_slice (item_start idx i) (idx ! i + 1) xs) [p1..<Suc p2]"
proof (rule nth_equalityI)
  show "length (map (\<lambda>(b, c). py_slice (int b) (int c) xs)
           (zip (nat (item_start idx p1) # ends_of idx p1 p2) (ends_of idx p1 p2)))
        = length (map (\<lambda>i. py_slice (item_start idx i) (idx ! i + 1) xs) [p1..<Suc p2])"
    by (simp add: ends_of_def del: upt_Suc)
next
  fix j
  assume "j < length (map (\<lambda>(b, c). py_slice (int b) (int c) xs)
           (zip (nat (item_start idx p1) # ends_of idx p1 p2) (ends_of idx p1 p2)))"
  then have j: "j < Suc p2 - p1" by (simp add: ends_of_def del: upt_Suc)
  with assms have pj: "p1 + j < length idx" by simp
  have e: "ends_of idx p1 p2 ! j = nat (idx ! (p1 + j) + 1)"
    using j by (simp add: ends_of_def del: upt_Suc)
  have ie: "int (nat (idx ! (p1 + j) + 1)) = idx ! (p1 + j) + 1"
    using wf_index_ge [OF assms(1) pj] by simp
  have b: "int ((nat (item_start idx p1) # ends_of idx p1 p2) ! j) = item_start idx (p1 + j)"
  proof (cases j)
    case 0
    with item_start_nonneg [OF assms(1), of p1] assms show ?thesis by simp
  next
    case (Suc k)
    with j have "k < Suc p2 - p1" by simp
    then have "ends_of idx p1 p2 ! k = nat (idx ! (p1 + k) + 1)"
      by (simp add: ends_of_def del: upt_Suc)
    moreover have "-1 \<le> idx ! (p1 + k)"
      using wf_index_ge [OF assms(1), of "p1 + k"] pj Suc by simp
    ultimately show ?thesis using Suc by (simp add: item_start_def)
  qed
  from j e ie b
  show "map (\<lambda>(b, c). py_slice (int b) (int c) xs)
           (zip (nat (item_start idx p1) # ends_of idx p1 p2) (ends_of idx p1 p2)) ! j
        = map (\<lambda>i. py_slice (item_start idx i) (idx ! i + 1) xs) [p1..<Suc p2] ! j"
    by (simp add: ends_of_def del: upt_Suc)
qed

lemma split_per_item:
  assumes "wf_index idx" "p1 \<le> p2" "p2 < length idx" "idx ! p2 < int (length xs)"
  shows "np_split (take (nat (idx ! p2 + 1) - nat (item_start idx p1))
                     (drop (nat (item_start idx p1)) xs))
           (map (\<lambda>v. v + 1) (file_ends idx p1 p2 (item_start idx p1)))
         = map (\<lambda>i. py_slice (item_start idx i) (idx ! i + 1) xs) [p1..<Suc p2]"
proof -
  have l: "last (ends_of idx p1 p2) \<le> length xs"
    using assms(2,4) by (simp add: ends_of_last)
  from np_split_windows [OF ends_of_sorted [OF assms(1-3)] ends_of_ne [OF assms(2)] l]
  show ?thesis
    using assms(2) by (simp only: ends_of_last split_points [OF assms(1-3)] pieces_per_item [OF assms(1-3)])
qed

lemma window_slice:
  assumes "wf_index idx" "p1 \<le> p2" "p2 < length idx" "idx ! p2 < int (length xs)"
  shows "h5_slice (item_start idx p1) (idx ! p2 + 1) xs
           = Inr (take (nat (idx ! p2 + 1) - nat (item_start idx p1))
                    (drop (nat (item_start idx p1)) xs))"
proof -
  have s: "0 \<le> item_start idx p1" using item_start_nonneg [OF assms(1), of p1] assms by simp
  have "p1 < length idx" using assms by simp
  from item_start_le_end [OF assms(1) this] wf_index_mono [OF assms(1,2,3)]
  have le: "item_start idx p1 \<le> idx ! p2 + 1" by simp
  from s le have ab: "nat (item_start idx p1) \<le> nat (idx ! p2 + 1)" by simp
  from s le assms(4) have bn: "nat (idx ! p2 + 1) \<le> length xs" by simp
  from s le have neg: "\<not> item_start idx p1 < 0" "\<not> idx ! p2 + 1 < 0" by simp_all
  from ab bn have an: "nat (item_start idx p1) \<le> length xs" by simp
  show ?thesis
    unfolding h5_slice_def h5_range_def slice_bound_def Let_def
    using neg ab bn an le by (simp add: min_absorb2)
qed

lemma list_index_bound: "list_index xs x = Some i \<Longrightarrow> i < length xs"
  by (simp add: list_index_Some)

lemma resolve_items_range:
  assumes "resolve_items names from_item to_item = Inr (pf, pt)"
  shows "pf \<le> pt \<and> pt < length names"
proof -
  from assms obtain f t where
    "get_item names f = Inr pf" "get_item names t = Inr pt" "\<not> \<not> pt \<ge> pf"
    by (auto simp: resolve_items_def ebind_def split: sum.splits if_splits)
  then show ?thesis
    by (auto simp: get_item_def split: option.splits dest: list_index_bound)
qed

lemma np_split_Nil: "np_split xs [] = [xs]"
  by (simp add: np_split_def py_slice_def slice_bound_def)

lemma single_window:
  assumes "wf_index idx" "p < length idx" "idx ! p < int (length xs)"
  shows "take (nat (idx ! p + 1) - nat (item_start idx p)) (drop (nat (item_start idx p)) xs)
           = py_slice (item_start idx p) (idx ! p + 1) xs"
proof -
  have "file_ends idx p p (item_start idx p) = []"
    using assms(2) by (simp add: file_ends_nth)
  with split_per_item [OF assms(1) le_refl assms(2,3)] show ?thesis
    by (simp add: np_split_Nil)
qed

lemma access_data_window:
  assumes "r_index self ''format'' = Some (PyStr (ustr ''dense''))"
    and "r_legacy self = PyBool False"
    and "datasets (r_group self) ''features'' = Some (Arr2 F)"
    and "datasets (r_group self) ''times'' = Some (FloatArr ts)"
    and "wf_index idx" "p1 \<le> p2" "p2 < length idx"
    and "idx ! p2 < int (length ts)" "shape0 F = length ts"
  shows "access_data self (item_start idx p1) (idx ! p2) =
     Inr (\<lparr>shape1 = shape1 F,
           data = take (nat (idx ! p2 + 1) - nat (item_start idx p1))
                    (drop (nat (item_start idx p1)) (data F))\<rparr>,
          take (nat (idx ! p2 + 1) - nat (item_start idx p1))
            (drop (nat (item_start idx p1)) ts))"
proof -
  have F: "idx ! p2 < int (length (data F))" using assms(8,9) by (simp add: shape0_def)
  from window_slice [OF assms(5-7) F] window_slice [OF assms(5-8)] assms(1-4)
  show ?thesis
    by (simp add: access_data_def getitem_def access_features_def h5_rows_def)
qed

lemma read_items_slice:
  assumes "p1 \<le> p2" "p2 < length names"
  shows "py_slice (int p1) (int p2 + 1) names = map (\<lambda>i. names ! i) [p1..<Suc p2]"
proof -
  have e: "int p2 + 1 = int (Suc p2)" by simp
  from assms have a: "py_slice (int p1) (int (Suc p2)) names = take (Suc p2 - p1) (drop p1 names)"
    by (intro py_slice_nat) simp_all
  from assms have b: "take (Suc p2 - p1) (drop p1 names) = map (\<lambda>i. names ! i) [p1..<Suc p2]"
    by (auto simp: list_eq_iff_nth_eq simp del: upt_Suc)
  show ?thesis unfolding e a b ..
qed

text \<open>
  Splitting cuts a string at occurrences of the separator: joining the pieces with
  the separator gives the string back, joining them with another string is
  \<^verbatim>\<open>replace\<close>, and no piece contains the separator.
\<close>

lemma unichr_all_valid: "list_all code_point cs \<Longrightarrow> unichr_all cs = Inr (map nat cs)"
  by (induction cs) (simp_all add: unichr_def code_point_def)

lemma py_join_Cons: "xs \<noteq> [] \<Longrightarrow> py_join sep (x # xs) = x @ sep @ py_join sep xs"
  by (cases xs) simp_all

lemma split_scan_ne [simp]: "split_scan sep cur s \<noteq> []"
  by (induction sep cur s rule: split_scan.induct) simp_all

lemma join_split_scan: "py_join sep (split_scan sep cur s) = cur @ s"
proof (induction sep cur s rule: split_scan.induct)
  case (1 sep cur)
  then show ?case by simp
next
  case (2 sep cur c cs)
  show ?case
  proof (cases "sep \<noteq> [] \<and> take (length sep) (c # cs) = sep")
    case True
    with 2 have "py_join sep (split_scan sep [] (drop (length sep) (c # cs)))
        = drop (length sep) (c # cs)" by simp
    moreover from True have "sep @ drop (length sep) (c # cs) = c # cs"
      by (metis append_take_drop_id)
    ultimately show ?thesis using True by (simp add: py_join_Cons)
  next
    case False
    with 2 show ?thesis by auto
  qed
qed

lemma join_replace_scan:
  "py_join new (split_scan old cur s) = cur @ replace_scan old new s"
proof (induction old cur s rule: split_scan.induct)
  case (1 sep cur)
  then show ?case by simp
next
  case (2 sep cur c cs)
  show ?case
  proof (cases "sep \<noteq> [] \<and> take (length sep) (c # cs) = sep")
    case True
    with 2 have "py_join new (split_scan sep [] (drop (length sep) (c # cs)))
        = replace_scan sep new (drop (length sep) (c # cs))" by simp
    with True show ?thesis by (simp add: py_join_Cons)
  next
    case False
    with 2 show ?thesis by auto
  qed
qed

lemma contains_iff: "contains sub xs \<longleftrightarrow> (\<exists>i \<le> length xs. take (length sub) (drop i xs) = sub)"
proof (induction xs)
  case Nil
  then show ?case by auto
next
  case (Cons x xs)
  have "(\<exists>i \<le> length (x # xs). take (length sub) (drop i (x # xs)) = sub)
      \<longleftrightarrow> take (length sub) (x # xs) = sub \<or> (\<exists>i \<le> length xs. take (length sub) (drop i xs) = sub)"
    (is "?L \<longleftrightarrow> ?A \<or> ?B")
  proof
    assume ?L
    then obtain i where i: "i \<le> length (x # xs)" "take (length sub) (drop i (x # xs)) = sub" by blast
    show "?A \<or> ?B"
    proof (cases i)
      case 0
      with i show ?thesis by simp
    next
      case (Suc k)
      with i have "k \<le> length xs" "take (length sub) (drop k xs) = sub" by simp_all
      then show ?thesis by blast
    qed
  next
    assume "?A \<or> ?B"
    then show ?L
    proof
      assume ?A
      then have "0 \<le> length (x # xs) \<and> take (length sub) (drop 0 (x # xs)) = sub" by simp
      then show ?L by blast
    next
      assume ?B
      then obtain k where "k \<le> length xs" "take (length sub) (drop k xs) = sub" by blast
      then have "Suc k \<le> length (x # xs) \<and> take (length sub) (drop (Suc k) (x # xs)) = sub" by simp
      then show ?L by blast
    qed
  qed
  with Cons show ?case by simp
qed

lemma contains_decomp: "contains sub xs \<longleftrightarrow> (\<exists>ps ss. xs = ps @ sub @ ss)"
proof
  assume "contains sub xs"
  then obtain i where i: "take (length sub) (drop i xs) = sub" by (auto simp: contains_iff)
  have "xs = take i xs @ take (length sub) (drop i xs) @ drop (length sub) (drop i xs)"
    by (simp only: append_take_drop_id)
  with i have "xs = take i xs @ sub @ drop (length sub) (drop i xs)" by simp
  then show "\<exists>ps ss. xs = ps @ sub @ ss" by blast
next
  assume "\<exists>ps ss. xs = ps @ sub @ ss"
  then obtain ps ss where "xs = ps @ sub @ ss" by blast
  then have "length ps \<le> length xs \<and> take (length sub) (drop (length ps) xs) = sub" by simp
  then show "contains sub xs" unfolding contains_iff by blast
qed

lemma no_occurrence:
  assumes "sep \<noteq> []"
    and "\<forall>i < length cur. take (length sep) (drop i (cur @ s)) \<noteq> sep"
  shows "\<not> contains sep cur"
proof
  assume "contains sep cur"
  then obtain i where i: "i \<le> length cur" "take (length sep) (drop i cur) = sep"
    by (auto simp: contains_iff)
  from i(2) assms(1) have "drop i cur \<noteq> []" by auto
  then have lt: "i < length cur" by simp
  from i(2) have "length (take (length sep) (drop i cur)) = length sep" by simp
  then have "length sep \<le> length (drop i cur)" by simp
  then have eq: "take (length sep) (drop i (cur @ s)) = take (length sep) (drop i cur)"
    using lt by simp
  from assms(2) lt have "take (length sep) (drop i (cur @ s)) \<noteq> sep" by blast
  with eq i(2) show False by simp
qed

lemma split_scan_no_sep:
  "sep \<noteq> [] \<Longrightarrow> \<forall>i < length cur. take (length sep) (drop i (cur @ s)) \<noteq> sep \<Longrightarrow>
     list_all (\<lambda>p. \<not> contains sep p) (split_scan sep cur s)"
proof (induction sep cur s rule: split_scan.induct)
  case (1 sep cur)
  from no_occurrence [OF 1(1,2)] show ?case by simp
next
  case (2 sep cur c cs)
  show ?case
  proof (cases "take (length sep) (c # cs) = sep")
    case True
    have "list_all (\<lambda>p. \<not> contains sep p) (split_scan sep [] (drop (length sep) (c # cs)))"
      using 2(1) [OF _ "2.prems"(1)] True "2.prems"(1) by simp
    with True "2.prems"(1) no_occurrence [OF "2.prems"] show ?thesis by simp
  next
    case False
    have "\<forall>i < length (cur @ [c]). take (length sep) (drop i ((cur @ [c]) @ cs)) \<noteq> sep"
    proof (intro allI impI)
      fix i
      assume "i < length (cur @ [c])"
      then have "i < length cur \<or> i = length cur" by auto
      then show "take (length sep) (drop i ((cur @ [c]) @ cs)) \<noteq> sep"
      proof
        assume "i < length cur"
        with "2.prems"(2) show ?thesis by simp
      next
        assume "i = length cur"
        with False show ?thesis by simp
      qed
    qed
    from 2(2) [OF _ "2.prems"(1) this] False show ?thesis by simp
  qed
qed

section \<open>The write path\<close>









section \<open>The read path\<close>

text \<open>
  Claim C6. On a non-empty item list: without both names the range runs from the
  first item to the last; an omitted \<^verbatim>\<open>to_item\<close> is \<^verbatim>\<open>from_item\<close>; an omitted
  \<^verbatim>\<open>from_item\<close> is the first item. Two given names resolve to their first positions,
  with IOError for a name that is absent and IOError when the position of \<^verbatim>\<open>to_item\<close>
  is smaller than that of \<^verbatim>\<open>from_item\<close>; \<^verbatim>\<open>Reader.read\<close> raises that error whatever the
  time bounds are.
\<close>

theorem C6_item_range:
  assumes "items_group \<noteq> []"
  shows "resolve_items items_group None None =
           resolve_items items_group (Some (hd items_group)) (Some (last items_group)) \<and>
         resolve_items items_group (Some f) None = resolve_items items_group (Some f) (Some f) \<and>
         resolve_items items_group None (Some t) =
           resolve_items items_group (Some (hd items_group)) (Some t) \<and>
         resolve_items items_group (Some f) (Some t) =
           (case list_index items_group f of
              None \<Rightarrow> Inl (IOError NoEntry)
            | Some pf \<Rightarrow>
                (case list_index items_group t of
                   None \<Rightarrow> Inl (IOError NoEntry)
                 | Some pt \<Rightarrow> if pt < pf then Inl (IOError ItemOrder) else Inr (pf, pt))) \<and>
         (list_index items_group x = Some p \<longleftrightarrow>
            p < length items_group \<and> items_group ! p = x \<and> (\<forall>j<p. items_group ! j \<noteq> x)) \<and>
         (r_index self ''items'' = Some (StrArr items_group) \<and>
          list_index items_group f = Some pf \<and> list_index items_group t = Some pt \<and> pt < pf
            \<longrightarrow> Reader_read self (Some f) (Some t) from_time to_time = Inl (IOError ItemOrder))"
proof -
  have d1: "resolve_items items_group None None =
           resolve_items items_group (Some (hd items_group)) (Some (last items_group))"
    using assms by (simp add: resolve_items_def py_index_first py_index_last)
  have d2: "resolve_items items_group (Some f) None = resolve_items items_group (Some f) (Some f)"
    by (simp add: resolve_items_def)
  have d3: "resolve_items items_group None (Some t) =
           resolve_items items_group (Some (hd items_group)) (Some t)"
    using assms by (simp add: resolve_items_def py_index_first)
  have d4: "resolve_items items_group (Some f) (Some t) =
           (case list_index items_group f of
              None \<Rightarrow> Inl (IOError NoEntry)
            | Some pf \<Rightarrow>
                (case list_index items_group t of
                   None \<Rightarrow> Inl (IOError NoEntry)
                 | Some pt \<Rightarrow> if pt < pf then Inl (IOError ItemOrder) else Inr (pf, pt)))"
    by (simp add: resolve_items_def get_item_def not_le split: option.splits)
  have d6: "Reader_read self (Some f) (Some t) from_time to_time = Inl (IOError ItemOrder)"
    if "r_index self ''items'' = Some (StrArr items_group)"
      "list_index items_group f = Some pf" "list_index items_group t = Some pt" "pt < pf"
    using that by (simp add: Reader_read_def getitem_def d4)
  from d1 d2 d3 d4 d6 list_index_Some [of items_group x p] show ?thesis by blast
qed

text \<open>
  Claim C6, at the items \<open>a\<close>, \<open>b\<close>, \<open>c\<close>.
\<close>

theorem C6_item_range_witness:
  "resolve_items [ustr ''a'', ustr ''b'', ustr ''c''] None None = Inr (0, 2) \<and>
   resolve_items [ustr ''a'', ustr ''b'', ustr ''c''] (Some (ustr ''b'')) None = Inr (1, 1) \<and>
   resolve_items [ustr ''a'', ustr ''b'', ustr ''c''] None (Some (ustr ''b'')) = Inr (0, 1) \<and>
   resolve_items [ustr ''a'', ustr ''b'', ustr ''c''] (Some (ustr ''c'')) (Some (ustr ''a''))
     = Inl (IOError ItemOrder)"
proof -
  let ?abc = "[ustr ''a'', ustr ''b'', ustr ''c'']"
  have ne: "?abc \<noteq> []" by simp
  have ix: "list_index ?abc (ustr ''a'') = Some 0" "list_index ?abc (ustr ''b'') = Some 1"
    "list_index ?abc (ustr ''c'') = Some 2"
    by (simp_all add: ustr_def)
  note c = C6_item_range [OF ne, where x = "ustr ''a''" and p = 0 and pf = 2 and pt = 0
      and self = "\<lparr>r_legacy = PyBool False, r_index = Map.empty, r_group = one_item_store\<rparr>"
      and from_time = None and to_time = None]
  from c [where f = "ustr ''a''" and t = "ustr ''c''"]
    c [where f = "ustr ''b''" and t = "ustr ''b''"]
    c [where f = "ustr ''a''" and t = "ustr ''b''"]
    c [where f = "ustr ''c''" and t = "ustr ''a''"]
  show ?thesis by (simp add: ustr_def)
qed

text \<open>
  Claim C2 does not hold of the code: whenever a time bound is given, \<^verbatim>\<open>Reader.read\<close>
  raises, because it looks the times up in the array of offsets
  (\<^verbatim>\<open>index_group['times']\<close>). On the item with times 1, 2, 3, 4 the queries
  \<^verbatim>\<open>from_time=2\<close> and \<^verbatim>\<open>to_time=3.5\<close> raise IndexError; the query without time bound
  returns the item.
\<close>

theorem C2_time_bounds_raise:
  "isl (Reader_read self from_item to_item (Some ft) to_time) \<and>
   isl (Reader_read self from_item to_item from_time (Some tt)) \<and>
   ebind (Reader_init one_item_store None) (\<lambda>r. Reader_read r None None (Some 2) None)
     = Inl IndexError \<and>
   ebind (Reader_init one_item_store None) (\<lambda>r. Reader_read r None None None (Some (7 / 2)))
     = Inl IndexError \<and>
   ebind (Reader_init one_item_store None) (\<lambda>r. Reader_read r None None None None)
     = Inr ([ustr ''a''], [[1, 2, 3, 4]], [\<lparr>shape1 = 1, data = [[10], [20], [30], [40]]\<rparr>])"
proof -
  have "isl (Reader_read self from_item to_item (Some ft) to_time)"
    by (simp add: Reader_read_def isl_ebind lower_bound_def ndarray_field_def
        split: sum.splits prod.splits)
  moreover have "isl (Reader_read self from_item to_item from_time (Some tt))"
    by (simp add: Reader_read_def isl_ebind lower_bound_def upper_bound_def ndarray_field_def
        split: sum.splits prod.splits option.splits)
  moreover have init: "Reader_init one_item_store None =
      Inr \<lparr>r_legacy = PyBool False,
           r_index = [''items'' \<mapsto> StrArr [ustr ''a''], ''index'' \<mapsto> IntArr [3],
                      ''times'' \<mapsto> FloatArr [1, 2, 3, 4], ''format'' \<mapsto> PyStr (ustr ''dense'')],
           r_group = one_item_store\<rparr>"
    by (simp add: Reader_init_def one_item_store_def Index_read_def getitem_def ustr_def)
  moreover have "ebind (Reader_init one_item_store None)
      (\<lambda>r. Reader_read r None None (Some 2) None) = Inl IndexError"
    unfolding init
    by (simp add: getitem_def Reader_read_def resolve_items_def py_index_def get_item_def
        item_bounds_def lower_bound_def ndarray_field_def)
  moreover have "ebind (Reader_init one_item_store None)
      (\<lambda>r. Reader_read r None None None (Some (7 / 2))) = Inl IndexError"
    unfolding init
    by (simp add: getitem_def Reader_read_def resolve_items_def py_index_def get_item_def
        item_bounds_def lower_bound_def upper_bound_def ndarray_field_def)
  moreover have "ebind (Reader_init one_item_store None)
      (\<lambda>r. Reader_read r None None None None) =
      Inr ([ustr ''a''], [[1, 2, 3, 4]], [\<lparr>shape1 = 1, data = [[10], [20], [30], [40]]\<rparr>])"
    unfolding init
    by (simp add: one_item_store_def getitem_def ustr_def Reader_read_def resolve_items_def
        py_index_def get_item_def item_bounds_def lower_bound_def upper_bound_def
        access_data_def access_features_def h5_rows_def h5_slice_def h5_range_def
        slice_bound_def split_items_def py_slice_def)
  ultimately show ?thesis by blast
qed

text \<open>
  Claim C8 does not hold of the code: a reader opened on a store without version
  attribute loads the legacy dictionary, which names the items \<^verbatim>\<open>files\<close>, and every
  \<^verbatim>\<open>Reader.read\<close> on it raises; the same content in the current layout is read.
\<close>

theorem C8_legacy_snapshot_unreadable:
  "isl (ebind (Reader_init (grp\<lparr>attrs := (attrs grp)(''version'' := None)\<rparr>) None)
          (\<lambda>r. Reader_read r from_item to_item from_time to_time)) \<and>
   ebind (Reader_init two_item_legacy_store None) (\<lambda>r. Reader_read r None None None None)
     = Inl (KeyError ''items'') \<and>
   ebind (Reader_init two_item_store None) (\<lambda>r. Reader_read r None None None None)
     = Inr ([ustr ''a'', ustr ''b''], [[1, 2], [1]],
            [\<lparr>shape1 = 2, data = [[10, 11], [20, 21]]\<rparr>, \<lparr>shape1 = 2, data = [[30, 31]]\<rparr>])"
proof -
  let ?g = "grp\<lparr>attrs := (attrs grp)(''version'' := None)\<rparr>"
  have general: "isl (ebind (Reader_init ?g None)
          (\<lambda>r. Reader_read r from_item to_item from_time to_time))"
  proof (cases "LegacyIndex_read ?g")
    case (Inl e)
    then show ?thesis by (simp add: Reader_init_def)
  next
    case (Inr d)
    from legacy_no_items [OF Inr] Inr show ?thesis
      by (simp add: Reader_init_def read_without_items)
  qed
  have legacy: "ebind (Reader_init two_item_legacy_store None)
      (\<lambda>r. Reader_read r None None None None) = Inl (KeyError ''items'')"
    by (simp add: Reader_init_def two_item_legacy_store_def LegacyIndex_read_def getitem_def
        decode_files_def unichr_def py_split_def py_replace_def ustr_def Reader_read_def)
  have current: "ebind (Reader_init two_item_store None) (\<lambda>r. Reader_read r None None None None)
     = Inr ([ustr ''a'', ustr ''b''], [[1, 2], [1]],
            [\<lparr>shape1 = 2, data = [[10, 11], [20, 21]]\<rparr>, \<lparr>shape1 = 2, data = [[30, 31]]\<rparr>])"
    unfolding two_item_init
    by (simp add: Reader_read_def getitem_def two_item_resolve two_item_bounds lower_bound_def
        upper_bound_def two_item_data two_item_split py_slice_def slice_bound_def)
  from general legacy current show ?thesis by blast
qed

text \<open>
  Claim C9 does not hold of the code: on every store whose format is sparse the
  readers of the current and the 1.0 layout raise (NameError, the unbound \<^verbatim>\<open>g\<close>); only
  the legacy reader returns the \<^verbatim>\<open>dim\<close> attribute and the side array.
\<close>

theorem C9_sparse_read_raises:
  "isl (Index_read (set_format grp ''sparse'')) \<and>
   isl (IndexV1_0_read (set_format grp ''sparse'')) \<and>
   Index_read sparse_store = Inl (NameError ''g'') \<and>
   IndexV1_0_read sparse_store = Inl (NameError ''g'') \<and>
   LegacyIndex_read sparse_legacy_store =
     Inr [''files'' \<mapsto> StrArr [ustr ''a''], ''index'' \<mapsto> IntArr [1],
          ''times'' \<mapsto> FloatArr [1, 2], ''format'' \<mapsto> PyStr (ustr ''sparse''),
          ''dim'' \<mapsto> PyInt 5, ''frames'' \<mapsto> IntArr [2, 1]]"
proof -
  have "isl (Index_read (set_format grp ''sparse''))"
    by (simp add: Index_read_def set_format_def isl_ebind getitem_def
        split: sum.splits option.splits)
  moreover have "isl (IndexV1_0_read (set_format grp ''sparse''))"
    by (simp add: IndexV1_0_read_def set_format_def isl_ebind getitem_def
        split: sum.splits option.splits)
  moreover have "Index_read sparse_store = Inl (NameError ''g'')"
    by (simp add: Index_read_def sparse_store_def getitem_def)
  moreover have "IndexV1_0_read sparse_store = Inl (NameError ''g'')"
    by (simp add: IndexV1_0_read_def sparse_store_def getitem_def)
  moreover have "LegacyIndex_read sparse_legacy_store =
     Inr [''files'' \<mapsto> StrArr [ustr ''a''], ''index'' \<mapsto> IntArr [1],
          ''times'' \<mapsto> FloatArr [1, 2], ''format'' \<mapsto> PyStr (ustr ''sparse''),
          ''dim'' \<mapsto> PyInt 5, ''frames'' \<mapsto> IntArr [2, 1]]"
    by (simp add: LegacyIndex_read_def sparse_legacy_store_def getitem_def decode_files_def
        unichr_def py_split_def py_replace_def ustr_def)
  ultimately show ?thesis by blast
qed



text \<open>
  Claim C3 as stated fails: for the three items of 4, 3 and 2 frames the code splits
  at the re-based offsets 3 and 6, the offsets at the positions 0 and 1; the only
  position strictly between \<open>p1 = 0\<close> and \<open>p2 = 2\<close> is 1, with the offset 6.
\<close>

theorem C3_counterexample:
  "file_ends [3, 6, 8] 0 2 0 = [3, 6] \<and>
   strictly_between [3, 6, 8] 0 2 0 = [6] \<and>
   file_ends [3, 6, 8] 0 2 0 \<noteq> strictly_between [3, 6, 8] 0 2 0"
  by (simp add: file_ends_def strictly_between_def py_slice_def slice_bound_def eval_nat_numeral)

text \<open>
  Claim C3, amended. For a read without time bounds of the items \<open>p1\<close> to \<open>p2\<close> of a
  dense store with a well-formed index, the split offsets are the offsets at the
  positions \<open>p1 \<le> i < p2\<close> (the last frames of all covered items but the last), each
  re-based by the first frame of item \<open>p1\<close>; the result has one piece per covered
  item, and the piece of item \<open>i\<close> holds exactly the frames and times from the first to
  the last frame of item \<open>i\<close>. For \<open>p2 = p1\<close> that is the single undivided slice.
\<close>

theorem C3_split_per_item:
  assumes "r_index self ''items'' = Some (StrArr names)"
    and "r_index self ''index'' = Some (IntArr idx)"
    and "r_index self ''format'' = Some (PyStr (ustr ''dense''))"
    and "r_legacy self = PyBool False"
    and "datasets (r_group self) ''features'' = Some (Arr2 F)"
    and "datasets (r_group self) ''times'' = Some (FloatArr ts)"
    and "resolve_items names from_item to_item = Inr (pf, pt)"
    and "wf_index idx" and "length idx = length names"
    and "idx ! pt < int (length ts)" and "shape0 F = length ts"
  shows "file_ends idx pf pt (item_start idx pf) = map (\<lambda>i. idx ! i - item_start idx pf) [pf..<pt] \<and>
         Reader_read self from_item to_item None None =
           Inr (map (\<lambda>i. names ! i) [pf..<Suc pt],
                map (\<lambda>i. py_slice (item_start idx i) (idx ! i + 1) ts) [pf..<Suc pt],
                map (\<lambda>i. \<lparr>shape1 = shape1 F,
                           data = py_slice (item_start idx i) (idx ! i + 1) (data F)\<rparr>)
                  [pf..<Suc pt])"
proof -
  from resolve_items_range [OF assms(7)] assms(9)
  have r: "pf \<le> pt" "pt < length idx" "pt < length names" by simp_all
  let ?s = "item_start idx pf"
  let ?w = "\<lambda>xs. take (nat (idx ! pt + 1) - nat ?s) (drop (nat ?s) xs)"
  let ?ends = "map (\<lambda>v. v + 1) (file_ends idx pf pt ?s)"
  have F: "idx ! pt < int (length (data F))" using assms(10,11) by (simp add: shape0_def)
  have fe: "file_ends idx pf pt ?s = map (\<lambda>i. idx ! i - ?s) [pf..<pt]"
    using r by (simp add: file_ends_nth)
  have bounds: "item_bounds idx pf pt = Inr (?s, item_start idx pt, idx ! pf, idx ! pt)"
    using r by (simp add: item_bounds_ok)
  have acc: "access_data self ?s (idx ! pt) =
      Inr (\<lparr>shape1 = shape1 F, data = ?w (data F)\<rparr>, ?w ts)"
    by (rule access_data_window [OF assms(3-6) assms(8) r(1,2) assms(10,11)])
  have split: "split_items idx pf pt ?s \<lparr>shape1 = shape1 F, data = ?w (data F)\<rparr> (?w ts) =
      (map (\<lambda>i. \<lparr>shape1 = shape1 F, data = py_slice (item_start idx i) (idx ! i + 1) (data F)\<rparr>)
         [pf..<Suc pt],
       map (\<lambda>i. py_slice (item_start idx i) (idx ! i + 1) ts) [pf..<Suc pt])"
  proof (cases "pf < pt")
    case True
    have "np_split2 \<lparr>shape1 = shape1 F, data = ?w (data F)\<rparr> ?ends =
        map (\<lambda>i. \<lparr>shape1 = shape1 F, data = py_slice (item_start idx i) (idx ! i + 1) (data F)\<rparr>)
          [pf..<Suc pt]"
      unfolding np_split2_def
      by (simp add: split_per_item [OF assms(8) r(1,2) F] o_def del: upt_Suc)
    with True split_per_item [OF assms(8) r(1,2) assms(10)] show ?thesis
      by (simp add: split_items_def del: upt_Suc)
  next
    case False
    with r have eq: "pt = pf" by simp
    from single_window [OF assms(8) r(2) F] single_window [OF assms(8) r(2) assms(10)] eq
    show ?thesis by (simp add: split_items_def)
  qed
  have "Reader_read self from_item to_item None None =
           Inr (map (\<lambda>i. names ! i) [pf..<Suc pt],
                map (\<lambda>i. py_slice (item_start idx i) (idx ! i + 1) ts) [pf..<Suc pt],
                map (\<lambda>i. \<lparr>shape1 = shape1 F,
                           data = py_slice (item_start idx i) (idx ! i + 1) (data F)\<rparr>)
                  [pf..<Suc pt])"
    unfolding Reader_read_def
    using assms(1,2,7) bounds acc split read_items_slice [OF r(1,3)]
    by (simp add: getitem_def lower_bound_def upper_bound_def del: upt_Suc)
  with fe show ?thesis by simp
qed

text \<open>
  Claim C3, amended, at three items of 4, 3 and 2 frames: the nine frames come back
  in three pieces with the split offsets 3 and 6, and the item \<open>b\<close> alone as one piece.
\<close>

theorem C3_split_per_item_witness:
  "file_ends [3, 6, 8] 0 2 0 = [3, 6] \<and>
   Reader_read three_item_reader None None None None =
     Inr ([ustr ''a'', ustr ''b'', ustr ''c''],
          [[1, 2, 3, 4], [1, 2, 3], [1, 2]],
          [\<lparr>shape1 = 1, data = [[10], [11], [12], [13]]\<rparr>,
           \<lparr>shape1 = 1, data = [[20], [21], [22]]\<rparr>,
           \<lparr>shape1 = 1, data = [[30], [31]]\<rparr>]) \<and>
   Reader_read three_item_reader (Some (ustr ''b'')) None None None =
     Inr ([ustr ''b''], [[1, 2, 3]], [\<lparr>shape1 = 1, data = [[20], [21], [22]]\<rparr>])"
proof -
  let ?F = "\<lparr>shape1 = 1, data = [[10], [11], [12], [13], [20], [21], [22], [30], [31 :: rat]]\<rparr>"
  let ?ts = "[1, 2, 3, 4, 1, 2, 3, 1, 2 :: rat]"
  let ?names = "[ustr ''a'', ustr ''b'', ustr ''c'']"
  have d: "r_index three_item_reader ''items'' = Some (StrArr ?names)"
    "r_index three_item_reader ''index'' = Some (IntArr [3, 6, 8])"
    "r_index three_item_reader ''format'' = Some (PyStr (ustr ''dense''))"
    "r_legacy three_item_reader = PyBool False"
    "datasets (r_group three_item_reader) ''features'' = Some (Arr2 ?F)"
    "datasets (r_group three_item_reader) ''times'' = Some (FloatArr ?ts)"
    by (simp_all add: three_item_reader_def)
  have all: "resolve_items ?names None None = Inr (0, 2)"
    and one: "resolve_items ?names (Some (ustr ''b'')) None = Inr (1, 1)"
    by (simp_all add: resolve_items_def py_index_def get_item_def ustr_def)
  have wf: "wf_index [3, 6, 8]" and len: "length [3, 6, 8 :: int] = length ?names"
    by (simp_all add: wf_index_def)
  have e2: "[3, 6, 8] ! 2 < int (length ?ts)" and e1: "[3, 6, 8] ! 1 < int (length ?ts)"
    and sh: "shape0 ?F = length ?ts"
    by (simp_all add: shape0_def)
  have u: "[0..<3] = [0, 1, 2]" "[0..<2] = [0, 1]"
    by (simp_all add: upt_rec)
  from C3_split_per_item [OF d all wf len e2 sh] C3_split_per_item [OF d one wf len e1 sh]
  show ?thesis
    by (simp add: u item_start_def py_slice_def slice_bound_def)
qed

text \<open>
  Claim C5. On an array of code points the legacy decoding raises nothing and returns
  the pieces of the scan for \<open>/\\\<close> (47, 92) over the text in which the scan for
  \<open>/-\<close> (47, 45) has written \<open>/\<close> (47), the text being the code points in their order.
  The two stages are what the words say: the code points are the pieces between the
  occurrences of \<open>/-\<close> joined by \<open>/-\<close>, the replaced text is the same pieces joined by
  \<open>/\<close>, and it is also the names joined by \<open>/\\\<close>; no piece contains \<open>/-\<close> and no name
  contains \<open>/\\\<close>.
\<close>

theorem C5_legacy_names:
  assumes "list_all code_point cs"
  shows "decode_files cs =
           Inr (split_scan [47, 92] [] (replace_scan [47, 45] [47] (map nat cs))) \<and>
         (\<exists>pieces names.
            py_join [47, 45] pieces = map nat cs \<and>
            list_all (\<lambda>p. \<not> contains [47, 45] p) pieces \<and>
            py_join [47, 92] names = py_join [47] pieces \<and>
            list_all (\<lambda>n. \<not> contains [47, 92] n) names \<and>
            names \<noteq> [] \<and>
            decode_files cs = Inr names)"
proof -
  let ?s = "map nat cs"
  let ?pieces = "split_scan [47, 45] [] ?s"
  let ?replaced = "replace_scan [47, 45] [47] ?s"
  let ?names = "split_scan [47, 92] [] ?replaced"
  have dec: "decode_files cs = Inr ?names"
    using unichr_all_valid [OF assms] by (simp add: decode_files_def py_split_def py_replace_def)
  have p1: "py_join [47, 45] ?pieces = ?s"
    using join_split_scan [of "[47, 45]" "[]" ?s] by simp
  have p2: "list_all (\<lambda>p. \<not> contains [47, 45] p) ?pieces"
    by (rule split_scan_no_sep) simp_all
  have n1: "py_join [47, 92] ?names = py_join [47] ?pieces"
    using join_split_scan [of "[47, 92]" "[]" ?replaced]
      join_replace_scan [of "[47]" "[47, 45]" "[]" ?s] by simp
  have n2: "list_all (\<lambda>n. \<not> contains [47, 92] n) ?names"
    by (rule split_scan_no_sep) simp_all
  have n3: "?names \<noteq> []" by simp
  from dec p1 p2 n1 n2 n3 show ?thesis by blast
qed

text \<open>
  Claim C5, at the code points of \<open>a/-b/\\c\<close>: the names are \<open>a/b\<close> and \<open>c\<close>.
\<close>

theorem C5_legacy_names_witness:
  "decode_files [97, 47, 45, 98, 47, 92, 99] = Inr [[97, 47, 98], [99]]"
proof -
  have "list_all code_point [97, 47, 45, 98, 47, 92, 99]"
    by (simp add: code_point_def)
  from C5_legacy_names [OF this] show ?thesis by simp
qed

end
